theory Spec2Isabelle
  imports Complex_Main "HOL-Library.Word"
begin

section \<open>The C double values the module computes with\<close>

text \<open>
  A C \<open>double\<close> is modelled as a real number or one of the three special values of
  IEEE 754. The special values follow the IEEE rules (\<open>x / 0\<close>, \<open>inf - inf\<close>,
  \<open>sqrt\<close> and \<open>log\<close> of a negative number, comparisons with NaN). Arithmetic on
  finite values is exact real arithmetic: rounding and overflow of finite results are
  not modelled, so a finite result of this model is the double of the code only up to
  rounding. The claims settled below do not rest on the value of a finite result: they
  rest on the special values, on the counts, and on which cells a command reads and
  writes. The two zeros are not distinguished; every divisor of this program is a
  converted unsigned count, hence never the negative zero.
\<close>

datatype double = Fin real | PInf | NInf | NaN

fun neg_double :: "double \<Rightarrow> double" where
  "neg_double (Fin x) = Fin (- x)"
| "neg_double PInf = NInf"
| "neg_double NInf = PInf"
| "neg_double NaN = NaN"

fun add_double :: "double \<Rightarrow> double \<Rightarrow> double" where
  "add_double (Fin x) (Fin y) = Fin (x + y)"
| "add_double NaN _ = NaN"
| "add_double _ NaN = NaN"
| "add_double PInf NInf = NaN"
| "add_double NInf PInf = NaN"
| "add_double PInf _ = PInf"
| "add_double NInf _ = NInf"
| "add_double (Fin x) PInf = PInf"
| "add_double (Fin x) NInf = NInf"

definition sub_double :: "double \<Rightarrow> double \<Rightarrow> double" where
  "sub_double a b = add_double a (neg_double b)"

fun mul_double :: "double \<Rightarrow> double \<Rightarrow> double" where
  "mul_double (Fin x) (Fin y) = Fin (x * y)"
| "mul_double NaN _ = NaN"
| "mul_double _ NaN = NaN"
| "mul_double PInf PInf = PInf"
| "mul_double PInf NInf = NInf"
| "mul_double NInf PInf = NInf"
| "mul_double NInf NInf = PInf"
| "mul_double PInf (Fin y) = (if y = 0 then NaN else if 0 < y then PInf else NInf)"
| "mul_double NInf (Fin y) = (if y = 0 then NaN else if 0 < y then NInf else PInf)"
| "mul_double (Fin x) PInf = (if x = 0 then NaN else if 0 < x then PInf else NInf)"
| "mul_double (Fin x) NInf = (if x = 0 then NaN else if 0 < x then NInf else PInf)"

fun div_double :: "double \<Rightarrow> double \<Rightarrow> double" where
  "div_double (Fin x) (Fin y) =
     (if y = 0 then (if x = 0 then NaN else if 0 < x then PInf else NInf)
      else Fin (x / y))"
| "div_double NaN _ = NaN"
| "div_double _ NaN = NaN"
| "div_double (Fin x) PInf = Fin 0"
| "div_double (Fin x) NInf = Fin 0"
| "div_double PInf (Fin y) = (if 0 \<le> y then PInf else NInf)"
| "div_double NInf (Fin y) = (if 0 \<le> y then NInf else PInf)"
| "div_double PInf _ = NaN"
| "div_double NInf _ = NaN"

fun sqrt_double :: "double \<Rightarrow> double" where
  "sqrt_double (Fin x) = (if x < 0 then NaN else Fin (sqrt x))"
| "sqrt_double PInf = PInf"
| "sqrt_double NInf = NaN"
| "sqrt_double NaN = NaN"

fun log_double :: "double \<Rightarrow> double" where
  "log_double (Fin x) = (if x < 0 then NaN else if x = 0 then NInf else Fin (ln x))"
| "log_double PInf = PInf"
| "log_double NInf = NaN"
| "log_double NaN = NaN"

text \<open>The C comparisons \<open>a > b\<close> and \<open>a == b\<close>: false whenever an operand is NaN.\<close>

fun gt_double :: "double \<Rightarrow> double \<Rightarrow> bool" where
  "gt_double (Fin x) (Fin y) = (y < x)"
| "gt_double NaN _ = False"
| "gt_double _ NaN = False"
| "gt_double PInf PInf = False"
| "gt_double PInf _ = True"
| "gt_double NInf _ = False"
| "gt_double (Fin x) PInf = False"
| "gt_double (Fin x) NInf = True"

fun eq_double :: "double \<Rightarrow> double \<Rightarrow> bool" where
  "eq_double NaN _ = False"
| "eq_double _ NaN = False"
| "eq_double a b = (a = b)"

section \<open>The in-RAM data structure\<close>

type_synonym ARM = "32 word"
type_synonym COUNT = "64 word"

definition MAX_ARMS :: nat where
  "MAX_ARMS = 64"

text \<open>The conversion of a \<open>uint64_t\<close> to \<open>double\<close> (exact in this model).\<close>

definition double_of_COUNT :: "COUNT \<Rightarrow> double" where
  "double_of_COUNT n = Fin (real (unat n))"

text \<open>\<open>struct BanditUCBObject\<close>: \<open>counts\<close> and \<open>means\<close> have \<open>narms\<close> elements.\<close>

record BanditUCBObject =
  narms :: ARM
  c :: double
  counts :: "COUNT list"
  means :: "double list"

text \<open>
  \<open>RedisModule_Alloc\<close> returns uninitialised memory: an array of \<open>n\<close> cells whose
  contents \<open>mem\<close> are arbitrary, a parameter of every function that allocates.
\<close>

definition RedisModule_Alloc :: "nat \<Rightarrow> (nat \<Rightarrow> 'a) \<Rightarrow> 'a list" where
  "RedisModule_Alloc n mem = map mem [0..<n]"

definition createBanditUCBObject ::
  "ARM \<Rightarrow> double \<Rightarrow> (nat \<Rightarrow> COUNT) \<Rightarrow> (nat \<Rightarrow> double) \<Rightarrow> BanditUCBObject" where
  "createBanditUCBObject n cv mem_counts mem_means =
     \<lparr>narms = n, c = cv,
      counts = RedisModule_Alloc (unat n) mem_counts,
      means = RedisModule_Alloc (unat n) mem_means\<rparr>"

definition zeroBanditUCBObject :: "BanditUCBObject \<Rightarrow> BanditUCBObject" where
  "zeroBanditUCBObject ob =
     ob\<lparr>counts := fold (\<lambda>i cs. cs[i := 0]) [0..<unat (narms ob)] (counts ob),
        means := fold (\<lambda>i ms. ms[i := Fin 0]) [0..<unat (narms ob)] (means ob)\<rparr>"

text \<open>The arrays of an object have \<open>narms\<close> elements each.\<close>

definition wf_object :: "BanditUCBObject \<Rightarrow> bool" where
  "wf_object ob =
     (length (counts ob) = unat (narms ob) \<and> length (means ob) = unat (narms ob))"


section \<open>The host: keys, replies, parsed arguments\<close>

text \<open>
  What the key of a command holds: nothing, a value of another type, or a bandit.
  An argument is given as the result of the host's parser (\<open>RedisModule_StringToLongLong\<close>,
  \<open>RedisModule_StringToDouble\<close>): \<open>None\<close> when it does not return \<open>REDISMODULE_OK\<close>,
  the \<open>long long\<close> (a 64-bit word read as two's complement) or the \<open>double\<close> otherwise.
  The arity check is left to the host.
\<close>

datatype keyval = Empty | Other_Type | Bandit BanditUCBObject

datatype reply = Integer "64 word" | Double double | Array "reply list"

text \<open>
  An error reply carries its message (the host's message \<open>REDISMODULE_ERRORMSG_WRONGTYPE\<close>
  is a constructor of its own); the two other errors are the undefined behaviours of the C
  code: reading through the null pointer that \<open>RedisModule_ModuleTypeGetValue\<close>
  returns for an empty key, and writing past a static buffer of \<open>MAX_ARMS\<close> cells.
\<close>

datatype error =
    ERRORMSG_WRONGTYPE
  | Reply_Error string
  | Null_Dereference
  | Buffer_Overflow

fun RedisModule_ModuleTypeGetValue :: "keyval \<Rightarrow> BanditUCBObject option" where
  "RedisModule_ModuleTypeGetValue (Bandit ob) = Some ob"
| "RedisModule_ModuleTypeGetValue _ = None"

section \<open>BANDITUCB.INIT\<close>

definition BanditUCBInit_RedisCommand ::
  "keyval \<Rightarrow> 64 word option \<Rightarrow> double option \<Rightarrow> (nat \<Rightarrow> COUNT) \<Rightarrow> (nat \<Rightarrow> double)
     \<Rightarrow> (error + reply) \<times> keyval" where
  "BanditUCBInit_RedisCommand key narms_arg c_arg mem_counts mem_means =
     (if key = Other_Type then (Inl ERRORMSG_WRONGTYPE, key)
      else case narms_arg of
        None \<Rightarrow>
          (Inl (Reply_Error ''ERR invalid value: narms must be a signed 64 bit integer''), key)
      | Some n \<Rightarrow>
          if n = 0 then (Inl (Reply_Error ''ERR invalid value: narms must be > 0''), key)
          else if int MAX_ARMS < sint n
            then (Inl (Reply_Error ''ERR invalid value: too many arms''), key)
          else (case c_arg of
            None \<Rightarrow> (Inl (Reply_Error ''ERR invalid value: c must be a double''), key)
          | Some cv \<Rightarrow>
              let hto = (case key of
                           Bandit ob \<Rightarrow> ob
                         | _ \<Rightarrow> createBanditUCBObject (ucast n) cv mem_counts mem_means);
                  hto' = zeroBanditUCBObject hto
              in (Inr (Integer (ucast (narms hto'))), Bandit hto')))"

section \<open>BANDITUCB.ADD and BANDITUCB.SET\<close>

definition BanditUCBAdd_RedisCommand ::
  "keyval \<Rightarrow> 64 word option \<Rightarrow> double option \<Rightarrow> (error + reply) \<times> keyval" where
  "BanditUCBAdd_RedisCommand key arm_arg reward_arg =
     (if key = Other_Type then (Inl ERRORMSG_WRONGTYPE, key)
      else case arm_arg of
        None \<Rightarrow> (Inl (Reply_Error ''ERR invalid value: must be a signed 64 bit integer''), key)
      | Some in_arm \<Rightarrow>
          (case reward_arg of
            None \<Rightarrow> (Inl (Reply_Error ''ERR invalid value: must be a double''), key)
          | Some reward \<Rightarrow>
              if key = Empty
                then (Inl (Reply_Error ''ERR bandit needs to be initialized first''), key)
              else (case RedisModule_ModuleTypeGetValue key of
                None \<Rightarrow> (Inl Null_Dereference, key)
              | Some hto \<Rightarrow>
                  if sint in_arm < 0 \<or> uint (narms hto) \<le> sint in_arm
                    then (Inl (Reply_Error ''ERR invalid arm''), key)
                  else
                    let arm = unat (ucast in_arm :: ARM);
                        updated_count = counts hto ! arm + 1;
                        cs = (counts hto)[arm := counts hto ! arm + 1];
                        updated_mean =
                          (if updated_count = 1 then reward
                           else let old_mean = means hto ! arm
                                in add_double old_mean
                                     (div_double (sub_double reward old_mean)
                                        (double_of_COUNT updated_count)));
                        ms = (means hto)[arm := double_of_COUNT updated_count,
                                         arm := updated_mean]
                    in (Inr (Array [Integer (cs ! arm), Double (ms ! arm)]),
                        Bandit (hto\<lparr>counts := cs, means := ms\<rparr>)))))"

definition BanditUCBSet_RedisCommand ::
  "keyval \<Rightarrow> 64 word option \<Rightarrow> 64 word option \<Rightarrow> double option
     \<Rightarrow> (error + reply) \<times> keyval" where
  "BanditUCBSet_RedisCommand key arm_arg count_arg mean_arg =
     (if key = Other_Type then (Inl ERRORMSG_WRONGTYPE, key)
      else case arm_arg of
        None \<Rightarrow>
          (Inl (Reply_Error ''ERR invalid value: arm must be an unsigned 64 bit integer''), key)
      | Some arm \<Rightarrow>
          (case count_arg of
            None \<Rightarrow>
              (Inl (Reply_Error ''ERR invalid value: count must be an unsigned 64 bit integer''),
               key)
          | Some count \<Rightarrow>
              (case mean_arg of
                None \<Rightarrow> (Inl (Reply_Error ''ERR invalid value: total must be a double''), key)
              | Some mean \<Rightarrow>
                  if key = Empty
                    then (Inl (Reply_Error ''ERR bandit needs to be initialized first''), key)
                  else (case RedisModule_ModuleTypeGetValue key of
                    None \<Rightarrow> (Inl Null_Dereference, key)
                  | Some hto \<Rightarrow>
                      if sint arm < 0 \<or> uint (narms hto) \<le> sint arm
                        then (Inl (Reply_Error ''ERR invalid arm''), key)
                      else
                        let i = nat (sint arm);
                            cs = (counts hto)[i := count];
                            ms = (means hto)[i := mean]
                        in (Inr (Array [Integer (cs ! i), Double (ms ! i)]),
                            Bandit (hto\<lparr>counts := cs, means := ms\<rparr>))))))"

section \<open>BANDITUCB.PICK\<close>

text \<open>
  \<open>randInt\<close> draws from \<open>rand()\<close> until a draw is below the limit. The draws are the
  list \<open>rands\<close> of the values \<open>rand()\<close> returns, in order, each in \<open>[0, RAND_MAX]\<close>
  (so the C operators \<open>/\<close> and \<open>%\<close> are those of the natural numbers); \<open>RAND_MAX\<close> is a
  parameter. When the list has no accepted draw the loop does not return: \<open>None\<close>.
\<close>

fun randInt :: "nat \<Rightarrow> nat \<Rightarrow> nat list \<Rightarrow> nat option" where
  "randInt rand_max n [] = None"
| "randInt rand_max n (r # rs) =
     (if r < (rand_max div n) * n then Some (r mod n) else randInt rand_max n rs)"

definition sumcounts :: "COUNT list \<Rightarrow> 64 word \<Rightarrow> COUNT" where
  "sumcounts cs n = fold (\<lambda>i t. t + cs ! i) [0..<unat n] 0"

definition computeBounds :: "BanditUCBObject \<Rightarrow> double list \<Rightarrow> double list" where
  "computeBounds hto bounds =
     (let t = double_of_COUNT (sumcounts (counts hto) (ucast (narms hto)));
          logt = log_double t
      in fold (\<lambda>i bs.
                 let z = mul_double (c hto)
                           (sqrt_double (div_double logt (double_of_COUNT (counts hto ! i))));
                     mean = means hto ! i;
                     bound = add_double mean z
                 in bs[i := bound])
           [0..<unat (narms hto)] bounds)"

text \<open>
  The command keeps its bounds in a static buffer of \<open>MAX_ARMS\<close> doubles, which is
  state of the program: the model takes the buffer and returns it. The static buffer of
  choices is written before it is read, so it is a local list here. The result is
  \<open>None\<close> when \<open>randInt\<close> does not return.
\<close>

definition BanditUCBPick_RedisCommand ::
  "nat \<Rightarrow> nat list \<Rightarrow> keyval \<Rightarrow> double list \<Rightarrow> ((error + reply) \<times> double list) option" where
  "BanditUCBPick_RedisCommand rand_max rands key bounds =
     (if key = Other_Type then Some (Inl ERRORMSG_WRONGTYPE, bounds)
      else case RedisModule_ModuleTypeGetValue key of
        None \<Rightarrow> Some (Inl Null_Dereference, bounds)
      | Some hto \<Rightarrow>
          let n = unat (narms hto);
              unpulled = filter (\<lambda>i. counts hto ! i = 0) [0..<n]
          in if MAX_ARMS < length unpulled then Some (Inl Buffer_Overflow, bounds)
             else if unpulled = [] \<and> MAX_ARMS < n then Some (Inl Buffer_Overflow, bounds)
             else
               let (choices, bounds') =
                     (if unpulled = []
                      then let bs = computeBounds hto bounds;
                               bestBound = fold (\<lambda>i best. if gt_double (bs ! i) best
                                                           then bs ! i else best) [0..<n] NInf
                           in (filter (\<lambda>i. eq_double (bs ! i) bestBound) [0..<n], bs)
                      else (unpulled, bounds));
                   nchoices = length choices
               in if nchoices = 0 then Some (Inl (Reply_Error ''no choices''), bounds')
                  else (case (if nchoices = 1 then Some 0
                              else randInt rand_max nchoices rands) of
                    None \<Rightarrow> None
                  | Some ichoice \<Rightarrow>
                      Some (Inr (Integer (of_nat (choices ! ichoice))), bounds')))"

section \<open>Persistence: RDB and AOF\<close>

text \<open>
  The RDB stream is the list of the values saved. A load from a stream that does not hold
  the expected value makes the host abandon the load: \<open>None\<close>.
\<close>

datatype rdb_item = Unsigned "64 word" | DoubleVal double

fun RedisModule_LoadUnsigned :: "rdb_item list \<Rightarrow> (64 word \<times> rdb_item list) option" where
  "RedisModule_LoadUnsigned (Unsigned v # rdb) = Some (v, rdb)"
| "RedisModule_LoadUnsigned _ = None"

fun RedisModule_LoadDouble :: "rdb_item list \<Rightarrow> (double \<times> rdb_item list) option" where
  "RedisModule_LoadDouble (DoubleVal v # rdb) = Some (v, rdb)"
| "RedisModule_LoadDouble _ = None"

text \<open>The loops of the loader: cell \<open>i\<close> of the array receives the next value loaded.\<close>

fun load_array ::
  "(rdb_item list \<Rightarrow> ('a \<times> rdb_item list) option) \<Rightarrow> nat list \<Rightarrow> 'a list \<Rightarrow> rdb_item list
     \<Rightarrow> ('a list \<times> rdb_item list) option" where
  "load_array ld [] arr rdb = Some (arr, rdb)"
| "load_array ld (i # is) arr rdb =
     (case ld rdb of
        None \<Rightarrow> None
      | Some (v, rdb') \<Rightarrow> load_array ld is (arr[i := v]) rdb')"

definition BanditUCBRdbLoad ::
  "rdb_item list \<Rightarrow> int \<Rightarrow> (nat \<Rightarrow> COUNT) \<Rightarrow> (nat \<Rightarrow> double)
     \<Rightarrow> (BanditUCBObject \<times> rdb_item list) option" where
  "BanditUCBRdbLoad rdb encver mem_counts mem_means =
     (if encver \<noteq> 0 then None
      else case RedisModule_LoadUnsigned rdb of
        None \<Rightarrow> None
      | Some (n, rdb1) \<Rightarrow>
          (case RedisModule_LoadDouble rdb1 of
            None \<Rightarrow> None
          | Some (cv, rdb2) \<Rightarrow>
              let hto = createBanditUCBObject (ucast n) cv mem_counts mem_means
              in (case load_array RedisModule_LoadUnsigned [0..<unat (narms hto)]
                         (counts hto) rdb2 of
                    None \<Rightarrow> None
                  | Some (cs, rdb3) \<Rightarrow>
                      (case load_array RedisModule_LoadDouble [0..<unat (narms hto)]
                             (means hto) rdb3 of
                         None \<Rightarrow> None
                       | Some (ms, rdb4) \<Rightarrow> Some (hto\<lparr>counts := cs, means := ms\<rparr>, rdb4)))))"

text \<open>Saving appends to the stream; the result is what is appended.\<close>

definition BanditUCBRdbSave :: "BanditUCBObject \<Rightarrow> rdb_item list" where
  "BanditUCBRdbSave hto =
     [Unsigned (ucast (narms hto)), DoubleVal (c hto)]
     @ map (\<lambda>i. Unsigned (counts hto ! i)) [0..<unat (narms hto)]
     @ map (\<lambda>i. DoubleVal (means hto ! i)) [0..<unat (narms hto)]"









section \<open>Logs of rewards\<close>





section \<open>Loops over all the cells of an array\<close>

lemma fold_update_all:
  "n \<le> length xs \<Longrightarrow> fold (\<lambda>i ys. ys[i := f i]) [0..<n] xs = map f [0..<n] @ drop n xs"
proof (induction n)
  case 0
  then show ?case by simp
next
  case (Suc n)
  then have "n < length xs" by simp
  then have "(map f [0..<n] @ drop n xs)[n := f n] = map f [0..<n] @ (drop n xs)[0 := f n]"
    by (simp add: list_update_append)
  also have "(drop n xs)[0 := f n] = f n # drop (Suc n) xs"
    using \<open>n < length xs\<close> by (simp add: Cons_nth_drop_Suc [symmetric])
  finally show ?case using Suc by simp
qed



section \<open>Conversions between the integer types\<close>

lemma ucast_narms: "ucast (ucast (n :: ARM) :: 64 word) = n"
  by (simp add: ucast_up_ucast_id is_up)

lemma sint_nonneg_uint:
  fixes a :: "64 word"
  assumes "0 \<le> sint a"
  shows "sint a = uint a"
proof -
  have "sint a < 2 ^ 64" using sint_lt [of a] by simp
  with assms have "take_bit 64 (sint a) = sint a"
    by (simp add: take_bit_int_eq_self)
  then show ?thesis using uint_sint [of a] by simp
qed




lemma arm_index:
  fixes a :: "64 word" and n :: ARM
  assumes "0 \<le> sint a" "sint a < uint n"
  shows "unat (ucast a :: ARM) = nat (sint a)"
proof -
  have u: "sint a = int (unat a)"
    using sint_nonneg_uint [OF assms(1)] by (simp only: uint_nat)
  have "uint n < 2 ^ 32" using uint_lt2p [of n] by simp
  with assms(2) have "sint a < 2 ^ 32" by (rule less_trans)
  then have "int (unat a) < int (2 ^ 32)" unfolding u by simp
  then have "unat a < 2 ^ 32" by (rule of_nat_less_imp_less)
  then have "take_bit 32 (unat a) = unat a" by (rule take_bit_nat_eq_self)
  then have "unat (ucast a :: ARM) = unat a"
    by (simp add: unsigned_ucast_eq)
  also have "\<dots> = nat (sint a)" unfolding u by (rule nat_int [symmetric])
  finally show ?thesis .
qed





section \<open>Initialisation\<close>

text \<open>
  Claim C1 (re-initialisation installs the new parameters): the code does not. On a key
  that holds a bandit, \<open>BANDITUCB.INIT\<close> zeroes the counts and means of the existing
  object and drops the validated arguments: a bandit of 2 arms with \<open>c = 1\<close>,
  re-initialised with 3 arms and \<open>c = 2\<close>, still has 2 arms and \<open>c = 1\<close>, and the reply
  is 2.
\<close>

theorem init_existing_keeps_parameters:
  "BanditUCBInit_RedisCommand (Bandit \<lparr>narms = 2, c = Fin 1, counts = [3, 4], means = [Fin 1, Fin 2]\<rparr>)
     (Some 3) (Some (Fin 2)) mc mm
   = (Inr (Integer 2),
      Bandit \<lparr>narms = 2, c = Fin 1, counts = [0, 0], means = [Fin 0, Fin 0]\<rparr>)"
  by (simp add: BanditUCBInit_RedisCommand_def MAX_ARMS_def zeroBanditUCBObject_def upt_conv_Cons)

text \<open>What the code does on every existing bandit, whatever the accepted arguments.\<close>

lemma init_existing:
  "n \<noteq> 0 \<Longrightarrow> sint n \<le> int MAX_ARMS \<Longrightarrow>
     BanditUCBInit_RedisCommand (Bandit ob) (Some n) (Some cv) mc mm
       = (Inr (Integer (ucast (narms ob))), Bandit (zeroBanditUCBObject ob))"
  by (simp add: BanditUCBInit_RedisCommand_def zeroBanditUCBObject_def)

text \<open>
  Claim C3 (every arm count that is not positive is rejected): the code tests
  \<open>narms == 0\<close> only, under the message "narms must be > 0". A negative count passes
  and is truncated to 32 bits: \<open>-4294967295\<close> creates a bandit of one arm.
\<close>

theorem init_negative_narms_accepted:
  "BanditUCBInit_RedisCommand Empty (Some (- 4294967295)) (Some (Fin 2)) mc mm
   = (Inr (Integer 1), Bandit \<lparr>narms = 1, c = Fin 2, counts = [0], means = [Fin 0]\<rparr>)"
  by (simp add: BanditUCBInit_RedisCommand_def MAX_ARMS_def zeroBanditUCBObject_def
      createBanditUCBObject_def RedisModule_Alloc_def)

text \<open>The two rejections the code does make leave the key as it is.\<close>

lemma init_zero_rejected:
  "key \<noteq> Other_Type \<Longrightarrow>
     BanditUCBInit_RedisCommand key (Some 0) cv mc mm
       = (Inl (Reply_Error ''ERR invalid value: narms must be > 0''), key)"
  by (simp add: BanditUCBInit_RedisCommand_def)

lemma init_too_many_rejected:
  "key \<noteq> Other_Type \<Longrightarrow> int MAX_ARMS < sint n \<Longrightarrow>
     BanditUCBInit_RedisCommand key (Some n) cv mc mm
       = (Inl (Reply_Error ''ERR invalid value: too many arms''), key)"
  by (auto simp: BanditUCBInit_RedisCommand_def)

section \<open>Picking an arm\<close>

text \<open>
  Claim C2 (a pick on an absent bandit fails with "bandit needs to be initialized
  first"): the command reads \<open>hto->narms\<close> through the null pointer of the empty key;
  it has no test of the key type being empty, which ADD, SET, COUNTS and MEANS have.
\<close>

theorem pick_empty_key_null_dereference:
  "BanditUCBPick_RedisCommand rand_max rands Empty bounds = Some (Inl Null_Dereference, bounds)
   \<and> BanditUCBPick_RedisCommand rand_max rands Empty bounds
       \<noteq> Some (Inl (Reply_Error ''ERR bandit needs to be initialized first''), bounds)"
  by (simp add: BanditUCBPick_RedisCommand_def)

lemma randInt_returns:
  "\<exists>r\<in>set rands. r < (rand_max div n) * n \<Longrightarrow>
     \<exists>j. randInt rand_max n rands = Some j \<and> j < n"
proof (induction rands)
  case Nil
  then show ?case by simp
next
  case (Cons r rands)
  show ?case
  proof (cases "r < (rand_max div n) * n")
    case True
    then have "0 < n" by (cases n) simp_all
    with True show ?thesis by simp
  next
    case False
    with Cons show ?thesis by simp
  qed
qed

text \<open>
  Claim C5 (cold-start precedence): when an arm has a zero count (and the bandit has at
  most \<open>MAX_ARMS\<close> arms, and \<open>rand()\<close> yields a draw below the limit of \<open>randInt\<close>),
  the pick returns an arm whose count is zero. The bounds are not computed: the static
  buffer of bounds is returned as it was, and the pick is the same whatever the means
  and the constant \<open>c\<close> are.
\<close>

theorem pick_cold_start:
  assumes arms: "unat (narms hto) \<le> MAX_ARMS"
    and unpulled: "\<exists>i<unat (narms hto). counts hto ! i = 0"
    and draws: "\<exists>r\<in>set rands.
       r < (rand_max div length (filter (\<lambda>i. counts hto ! i = 0) [0..<unat (narms hto)]))
           * length (filter (\<lambda>i. counts hto ! i = 0) [0..<unat (narms hto)])"
  shows "\<exists>arm. BanditUCBPick_RedisCommand rand_max rands (Bandit hto) bounds
                  = Some (Inr (Integer (of_nat arm)), bounds)
           \<and> arm < unat (narms hto) \<and> counts hto ! arm = 0
           \<and> BanditUCBPick_RedisCommand rand_max rands (Bandit (hto\<lparr>c := cv, means := ms\<rparr>)) bounds
               = BanditUCBPick_RedisCommand rand_max rands (Bandit hto) bounds"
proof -
  define us where "us = filter (\<lambda>i. counts hto ! i = 0) [0..<unat (narms hto)]"
  from unpulled have ne: "us \<noteq> []"
    by (auto simp: us_def filter_empty_conv)
  have "length us \<le> length [0..<unat (narms hto)]"
    unfolding us_def by (rule length_filter_le)
  with arms have len: "\<not> MAX_ARMS < length us" by simp
  from draws obtain j where j: "randInt rand_max (length us) rands = Some j" "j < length us"
    using randInt_returns [of rands rand_max "length us"] by (auto simp: us_def)
  define k where "k = (if length us = 1 then 0 else j)"
  have k: "(if length us = 1 then Some 0 else randInt rand_max (length us) rands) = Some k"
    by (simp add: k_def j)
  have "k < length us" using j ne by (simp add: k_def)
  then have "us ! k \<in> set us" by simp
  then have arm: "us ! k < unat (narms hto)" "counts hto ! (us ! k) = 0"
    by (simp_all add: us_def)
  have pick: "BanditUCBPick_RedisCommand rand_max rands (Bandit hto) bounds
                = Some (Inr (Integer (of_nat (us ! k))), bounds)"
    using ne len k by (simp add: BanditUCBPick_RedisCommand_def Let_def us_def [symmetric])
  have "BanditUCBPick_RedisCommand rand_max rands (Bandit (hto\<lparr>c := cv, means := ms\<rparr>)) bounds
                = Some (Inr (Integer (of_nat (us ! k))), bounds)"
    using ne len k by (simp add: BanditUCBPick_RedisCommand_def Let_def us_def [symmetric])
  with pick arm show ?thesis by auto
qed

text \<open>
  The theorem at a bandit of three arms of which the first was pulled: the first draw of
  \<open>rand()\<close> is rejected (\<open>32766\<close> is the limit for two choices), the second is taken.
\<close>

theorem pick_cold_start_witness:
  "unat (narms \<lparr>narms = 3, c = Fin 2, counts = [1, 0, 0], means = [Fin 5, Fin 0, Fin 0]\<rparr>)
     \<le> MAX_ARMS
   \<and> (\<exists>arm. BanditUCBPick_RedisCommand 32767 [32766, 5]
         (Bandit \<lparr>narms = 3, c = Fin 2, counts = [1, 0, 0], means = [Fin 5, Fin 0, Fin 0]\<rparr>) []
        = Some (Inr (Integer (of_nat arm)), []) \<and> arm < 3 \<and> [1, 0, 0 :: 64 word] ! arm = 0)"
proof -
  let ?hto = "\<lparr>narms = 3, c = Fin 2, counts = [1, 0, 0], means = [Fin 5, Fin 0, Fin 0]\<rparr>"
  have h1: "unat (narms ?hto) \<le> MAX_ARMS" by (simp add: MAX_ARMS_def)
  have h2: "\<exists>i<unat (narms ?hto). counts ?hto ! i = 0"
    by (rule exI [of _ 1]) simp
  have len: "length (filter (\<lambda>i. counts ?hto ! i = 0) [0..<unat (narms ?hto)]) = 2"
    by (simp add: upt_conv_Cons)
  have h3: "\<exists>r\<in>set [32766, 5 :: nat].
       r < (32767 div length (filter (\<lambda>i. counts ?hto ! i = 0) [0..<unat (narms ?hto)]))
           * length (filter (\<lambda>i. counts ?hto ! i = 0) [0..<unat (narms ?hto)])"
    unfolding len by simp
  from pick_cold_start [OF h1 h2 h3, where bounds = "[]" and cv = "Fin 1" and ms = "[]"] h1
  show ?thesis by auto
qed

section \<open>The bounds\<close>

lemma computeBounds_nth:
  assumes "i < unat (narms hto)" and "unat (narms hto) \<le> length bounds"
  shows "computeBounds hto bounds ! i =
           add_double (means hto ! i)
             (mul_double (c hto)
                (sqrt_double
                   (div_double
                      (log_double (double_of_COUNT (sumcounts (counts hto) (ucast (narms hto)))))
                      (double_of_COUNT (counts hto ! i)))))"
  using assms by (simp add: computeBounds_def Let_def fold_update_all nth_append)

text \<open>
  Claim C6 (the bound of an arm that was not pulled is NaN): the code gives NaN only
  while the counts sum to 0 or 1. From a sum of 2 on, \<open>log(t)\<close> is positive, its
  quotient by the zero count is \<open>+inf\<close>, and so is the bound when \<open>c\<close> is positive:
  with two arms, \<open>c = 1\<close> and the first arm pulled twice, the bound of the second arm is
  \<open>+inf\<close>.
\<close>

theorem computeBounds_unpulled_infinite:
  "computeBounds \<lparr>narms = 2, c = Fin 1, counts = [2, 0], means = [Fin 0, Fin 0]\<rparr>
     [Fin 0, Fin 0]
   = [Fin (sqrt (ln 2 / 2)), PInf]"
  by (simp add: computeBounds_def sumcounts_def double_of_COUNT_def upt_conv_Cons)

text \<open>Right after an initialisation the counts sum to 0, and every bound is NaN.\<close>

lemma computeBounds_after_init:
  "computeBounds \<lparr>narms = 2, c = Fin 1, counts = [0, 0], means = [Fin 0, Fin 0]\<rparr>
     [Fin 0, Fin 0] = [NaN, NaN]"
  by (simp add: computeBounds_def sumcounts_def double_of_COUNT_def upt_conv_Cons)

text \<open>
  Once every arm was pulled the pick compares the bounds: with \<open>c = 2\<close>, means 5, 1, 1 and
  one pull each, arm 0 has the greatest bound and is picked without a draw.
\<close>

lemma pick_compares_bounds:
  "map_option fst
     (BanditUCBPick_RedisCommand rand_max rands
        (Bandit \<lparr>narms = 3, c = Fin 2, counts = [1, 1, 1], means = [Fin 5, Fin 1, Fin 1]\<rparr>)
        [Fin 0, Fin 0, Fin 0])
   = Some (Inr (Integer 0))"
  by (simp add: BanditUCBPick_RedisCommand_def MAX_ARMS_def computeBounds_def sumcounts_def
      double_of_COUNT_def upt_conv_Cons)

section \<open>Setting an arm\<close>

text \<open>
  Claim C7 (a negative count is rejected by SET): the code stores it. The count is parsed
  as a \<open>long long\<close> and assigned to the \<open>uint64_t\<close> cell with no test, although the
  message of the parse error asks for an unsigned integer and the arm is tested against
  0: the count \<open>-1\<close> is stored as \<open>18446744073709551615\<close>, and the reply is not an error.
\<close>

theorem set_negative_count_stored:
  "BanditUCBSet_RedisCommand (Bandit \<lparr>narms = 1, c = Fin 2, counts = [0], means = [Fin 0]\<rparr>)
     (Some 0) (Some (- 1)) (Some (Fin 5))
   = (Inr (Array [Integer (- 1), Double (Fin 5)]),
      Bandit \<lparr>narms = 1, c = Fin 2, counts = [18446744073709551615], means = [Fin 5]\<rparr>)"
  by (simp add: BanditUCBSet_RedisCommand_def)


text \<open>
  Claim C10 (frame of the updates): a successful ADD or SET on arm \<open>a\<close> leaves the
  number of arms, the constant \<open>c\<close>, the sizes of the arrays, and the count and mean of
  every other arm as they were.
\<close>

theorem add_set_frame:
  assumes "BanditUCBAdd_RedisCommand (Bandit hto) (Some a) r = (Inr rep, key')
           \<or> BanditUCBSet_RedisCommand (Bandit hto) (Some a) n m = (Inr rep, key')"
  shows "\<exists>hto'. key' = Bandit hto'
           \<and> narms hto' = narms hto \<and> c hto' = c hto
           \<and> length (counts hto') = length (counts hto)
           \<and> length (means hto') = length (means hto)
           \<and> (\<forall>j. j \<noteq> nat (sint a) \<longrightarrow>
                 counts hto' ! j = counts hto ! j \<and> means hto' ! j = means hto ! j)"
  using assms
proof
  assume add: "BanditUCBAdd_RedisCommand (Bandit hto) (Some a) r = (Inr rep, key')"
  then have range: "0 \<le> sint a" "sint a < uint (narms hto)"
    by (auto simp: BanditUCBAdd_RedisCommand_def split: option.splits if_splits)
  have idx: "unat (ucast a :: ARM) = nat (sint a)"
    using range by (rule arm_index)
  from add show ?thesis
    by (auto simp: BanditUCBAdd_RedisCommand_def Let_def idx split: option.splits if_splits)
next
  assume "BanditUCBSet_RedisCommand (Bandit hto) (Some a) n m = (Inr rep, key')"
  then show ?thesis
    by (auto simp: BanditUCBSet_RedisCommand_def Let_def split: option.splits if_splits)
qed

text \<open>The theorem at an ADD of the reward 2 to arm 0 of a bandit of two arms.\<close>

theorem add_set_frame_witness:
  "BanditUCBAdd_RedisCommand (Bandit \<lparr>narms = 2, c = Fin 1, counts = [1, 0], means = [Fin 4, Fin 0]\<rparr>)
     (Some 0) (Some (Fin 2))
     = (Inr (Array [Integer 2, Double (Fin 3)]),
        Bandit \<lparr>narms = 2, c = Fin 1, counts = [2, 0], means = [Fin 3, Fin 0]\<rparr>)
   \<and> (\<exists>hto'. Bandit \<lparr>narms = 2, c = Fin 1, counts = [2, 0], means = [Fin 3, Fin 0]\<rparr>
                = Bandit hto'
          \<and> narms hto' = 2 \<and> c hto' = Fin 1
          \<and> length (counts hto') = 2 \<and> length (means hto') = 2
          \<and> (\<forall>j. j \<noteq> nat (sint (0 :: 64 word)) \<longrightarrow>
                counts hto' ! j = [1, 0] ! j \<and> means hto' ! j = [Fin 4, Fin 0] ! j))"
proof -
  have h: "BanditUCBAdd_RedisCommand
             (Bandit \<lparr>narms = 2, c = Fin 1, counts = [1, 0], means = [Fin 4, Fin 0]\<rparr>)
             (Some 0) (Some (Fin 2))
           = (Inr (Array [Integer 2, Double (Fin 3)]),
              Bandit \<lparr>narms = 2, c = Fin 1, counts = [2, 0], means = [Fin 3, Fin 0]\<rparr>)"
    by (simp add: BanditUCBAdd_RedisCommand_def double_of_COUNT_def sub_double_def)
  from add_set_frame [OF disjI1, OF h] h show ?thesis by simp
qed

section \<open>Recording rewards\<close>











section \<open>Saving and loading\<close>

lemma load_array_append:
  "load_array ld (is @ js) arr rdb =
     (case load_array ld is arr rdb of
        None \<Rightarrow> None
      | Some (arr', rdb') \<Rightarrow> load_array ld js arr' rdb')"
  by (induction "is" arbitrary: arr rdb) (auto split: option.splits)

lemma load_array_saved:
  assumes ld: "\<And>v r. ld (mk v # r) = Some (v, r)"
  shows "length vs \<le> length arr \<Longrightarrow>
     load_array ld [0..<length vs] arr (map mk vs @ rest)
       = Some (vs @ drop (length vs) arr, rest)"
proof (induction vs arbitrary: rest rule: rev_induct)
  case Nil
  then show ?case by simp
next
  case (snoc v vs)
  then have n: "length vs < length arr" by simp
  have first: "load_array ld [0..<length vs] arr (map mk vs @ mk v # rest)
          = Some (vs @ drop (length vs) arr, mk v # rest)"
    using snoc.IH [of "mk v # rest"] n by simp
  have "(vs @ drop (length vs) arr)[length vs := v] = vs @ (drop (length vs) arr)[0 := v]"
    by (simp add: list_update_append)
  also have "(drop (length vs) arr)[0 := v] = v # drop (Suc (length vs)) arr"
    using n by (simp add: Cons_nth_drop_Suc [symmetric])
  finally have upd: "(vs @ drop (length vs) arr)[length vs := v]
                       = vs @ v # drop (Suc (length vs)) arr" .
  show ?case
    by (simp add: load_array_append first ld upd)
qed

lemma load_array_whole:
  assumes ld: "\<And>v r. ld (mk v # r) = Some (v, r)" and "length arr = length vs"
  shows "load_array ld [0..<length vs] arr (map mk vs @ rest) = Some (vs, rest)"
  using load_array_saved [of ld mk vs arr rest] assms by simp

lemma BanditUCBRdbSave_layout:
  assumes wf: "wf_object hto"
  shows "BanditUCBRdbSave hto
       = Unsigned (ucast (narms hto)) # DoubleVal (c hto)
         # map Unsigned (counts hto) @ map DoubleVal (means hto)"
proof -
  have "map Unsigned (map ((!) (counts hto)) [0..<length (counts hto)])
          = map Unsigned (counts hto)"
    by (simp only: map_nth)
  then have "map (\<lambda>i. Unsigned (counts hto ! i)) [0..<length (counts hto)]
               = map Unsigned (counts hto)"
    by (simp add: comp_def)
  moreover have "map DoubleVal (map ((!) (means hto)) [0..<length (means hto)])
                   = map DoubleVal (means hto)"
    by (simp only: map_nth)
  then have "map (\<lambda>i. DoubleVal (means hto ! i)) [0..<length (means hto)]
               = map DoubleVal (means hto)"
    by (simp add: comp_def)
  ultimately show ?thesis using wf by (simp add: BanditUCBRdbSave_def wf_object_def)
qed


text \<open>
  Claim C8 (round trip of the serialisation): an object whose arrays have \<open>narms\<close>
  cells is saved as its number of arms, its constant \<open>c\<close>, its counts and its means, in
  this order, and loading what was saved (encoding version 0, whatever follows in the
  stream and whatever the fresh memory holds) gives the object back.
\<close>

theorem rdb_round_trip:
  assumes wf: "wf_object hto"
  shows "BanditUCBRdbSave hto
           = Unsigned (ucast (narms hto)) # DoubleVal (c hto)
             # map Unsigned (counts hto) @ map DoubleVal (means hto)
         \<and> BanditUCBRdbLoad (BanditUCBRdbSave hto @ rdb) 0 mc mm = Some (hto, rdb)"
proof -
  let ?ob = "createBanditUCBObject (narms hto) (c hto) mc mm"
  have len: "length (counts ?ob) = length (counts hto)" "length (means ?ob) = length (means hto)"
    using wf by (simp_all add: createBanditUCBObject_def RedisModule_Alloc_def wf_object_def)
  have n: "narms ?ob = narms hto" by (simp add: createBanditUCBObject_def)
  have un: "unat (narms hto) = length (counts hto)" "unat (narms hto) = length (means hto)"
    using wf by (simp_all add: wf_object_def)
  have cs: "load_array RedisModule_LoadUnsigned [0..<length (counts hto)] (counts ?ob)
              (map Unsigned (counts hto) @ map DoubleVal (means hto) @ rdb)
            = Some (counts hto, map DoubleVal (means hto) @ rdb)"
    by (rule load_array_whole) (simp_all add: len)
  have ms: "load_array RedisModule_LoadDouble [0..<length (means hto)] (means ?ob)
              (map DoubleVal (means hto) @ rdb)
            = Some (means hto, rdb)"
    by (rule load_array_whole) (simp_all add: len)
  have eq: "?ob\<lparr>counts := counts hto, means := means hto\<rparr> = hto"
    by (simp add: createBanditUCBObject_def)
  have cs': "load_array RedisModule_LoadUnsigned [0..<unat (narms ?ob)] (counts ?ob)
              (map Unsigned (counts hto) @ map DoubleVal (means hto) @ rdb)
            = Some (counts hto, map DoubleVal (means hto) @ rdb)"
    unfolding n un(1) by (rule cs)
  have ms': "load_array RedisModule_LoadDouble [0..<unat (narms ?ob)] (means ?ob)
              (map DoubleVal (means hto) @ rdb)
            = Some (means hto, rdb)"
    unfolding n un(2) by (rule ms)
  have "BanditUCBRdbLoad (BanditUCBRdbSave hto @ rdb) 0 mc mm = Some (hto, rdb)"
    by (simp add: BanditUCBRdbLoad_def BanditUCBRdbSave_layout [OF wf] ucast_narms Let_def
        cs' ms' eq)
  with BanditUCBRdbSave_layout [OF wf] show ?thesis by simp
qed

theorem rdb_round_trip_witness:
  "wf_object \<lparr>narms = 2, c = Fin 1, counts = [7, 0], means = [NaN, Fin 3]\<rparr>
   \<and> BanditUCBRdbLoad
       (BanditUCBRdbSave \<lparr>narms = 2, c = Fin 1, counts = [7, 0], means = [NaN, Fin 3]\<rparr>
          @ [Unsigned 9])
       0 (\<lambda>i. 5) (\<lambda>i. PInf)
     = Some (\<lparr>narms = 2, c = Fin 1, counts = [7, 0], means = [NaN, Fin 3]\<rparr>, [Unsigned 9])"
proof -
  have h: "wf_object \<lparr>narms = 2, c = Fin 1, counts = [7, 0], means = [NaN, Fin 3]\<rparr>"
    by (simp add: wf_object_def)
  from rdb_round_trip [OF h, of "[Unsigned 9]" "\<lambda>i. 5" "\<lambda>i. PInf"] h
  show ?thesis by blast
qed

section \<open>Rewriting and replaying the append-only file\<close>








end
